theory Spec2Isabelle
  imports Main "HOL-Library.Word"
begin

unbundle bit_operations_syntax

section \<open>Data model (IOLink.h)\<close>

type_synonym u8 = "8 word"
type_synonym u32 = "32 word"

datatype OperationMode = SIO | COM1 | COM2 | COM3

datatype MessageType = PROCESS_DATA | PARAMETER | DIAGNOSTIC | EVENT

datatype ErrorCode =
  NONE | COMMUNICATION_ERROR | DEVICE_ERROR | TIMEOUT | INVALID_PARAMETER | NOT_SUPPORTED

section \<open>Frame codec (IOLink.cpp, parseIOLinkMessage and buildIOLinkMessage)\<close>

text \<open>\<^verbatim>\<open>const uint8_t START_BYTE = 0xA5;\<close>\<close>

definition START_BYTE :: u8 where
  "START_BYTE = 0xA5"

text \<open>The \<^verbatim>\<open>switch (type)\<close> of buildIOLinkMessage. Its \<^verbatim>\<open>default\<close> branch is not
  reachable for the four enumerators.\<close>

fun type_value :: "MessageType \<Rightarrow> u8" where
  "type_value PROCESS_DATA = 0x01"
| "type_value PARAMETER = 0x02"
| "type_value DIAGNOSTIC = 0x03"
| "type_value EVENT = 0x04"

text \<open>The \<^verbatim>\<open>switch (typeValue)\<close> of parseIOLinkMessage; \<open>None\<close> is its
  \<^verbatim>\<open>default: return ErrorCode::COMMUNICATION_ERROR\<close>.\<close>

definition value_type :: "u8 \<Rightarrow> MessageType option" where
  "value_type typeValue =
     (if typeValue = 0x01 then Some PROCESS_DATA
      else if typeValue = 0x02 then Some PARAMETER
      else if typeValue = 0x03 then Some DIAGNOSTIC
      else if typeValue = 0x04 then Some EVENT
      else None)"

text \<open>\<^verbatim>\<open>for (uint8_t byte : payload) { checksum ^= byte; }\<close>\<close>

fun xor_bytes :: "u8 \<Rightarrow> u8 list \<Rightarrow> u8" where
  "xor_bytes checksum [] = checksum"
| "xor_bytes checksum (byte # rest) = xor_bytes (checksum XOR byte) rest"

text \<open>\<^verbatim>\<open>for (uint8_t i = 0; i < length; i++) { payload.push_back(rawData[3 + i]); }\<close>
  The counter is a byte, as in the source; it stays below \<open>length\<close>, so \<open>i + 1\<close> never wraps.
  The index \<open>3 + i\<close> is computed in \<^verbatim>\<open>int\<close>.\<close>

function extract_payload :: "u8 list \<Rightarrow> u8 \<Rightarrow> u8 \<Rightarrow> u8 list \<Rightarrow> u8 list" where
  "extract_payload rawData len i payload =
     (if i < len then extract_payload rawData len (i + 1) (payload @ [rawData ! (3 + unat i)])
      else payload)"
  by pat_completeness auto
termination
proof (relation "measure (\<lambda>(rawData, len, i, payload). unat len - unat i)")
  show "wf (measure (\<lambda>(rawData, len, i, payload). unat len - unat i))"
    by simp
next
  fix rawData :: "u8 list" and len i :: u8 and payload :: "u8 list"
  assume lt: "i < len"
  have "i + 1 \<noteq> 0"
  proof
    assume "i + 1 = 0"
    then have "i = - 1"
      by (simp add: eq_neg_iff_add_eq_0)
    with lt show False
      by simp
  qed
  then have "unat (i + 1) = Suc (unat i)"
    using unatSuc [of i] by (simp add: add.commute)
  with lt show "((rawData, len, i + 1, payload @ [rawData ! (3 + unat i)]), (rawData, len, i, payload))
      \<in> measure (\<lambda>(rawData, len, i, payload). unat len - unat i)"
    by (simp add: word_less_nat_alt)
qed

declare extract_payload.simps [simp del]

text \<open>The out-parameters \<^verbatim>\<open>type\<close> and \<^verbatim>\<open>payload\<close> are passed in and returned; \<open>None\<close> is a
  \<^verbatim>\<open>MessageType\<close> variable that has not been assigned. Every \<^verbatim>\<open>return\<close> of the source is one
  branch. In \<^verbatim>\<open>rawData.size() < length + 4\<close> the sum is computed in \<^verbatim>\<open>int\<close> and cannot wrap.\<close>

definition parseIOLinkMessage ::
  "u8 list \<Rightarrow> MessageType option \<Rightarrow> u8 list \<Rightarrow> ErrorCode \<times> MessageType option \<times> u8 list" where
  "parseIOLinkMessage rawData type payload =
     (if length rawData < 4 then (COMMUNICATION_ERROR, type, payload)
      else if rawData ! 0 \<noteq> START_BYTE then (COMMUNICATION_ERROR, type, payload)
      else
        let typeValue = rawData ! 1 in
        (case value_type typeValue of
           None \<Rightarrow> (COMMUNICATION_ERROR, type, payload)
         | Some t \<Rightarrow>
             let len = rawData ! 2 in
             if length rawData < unat len + 4 then (COMMUNICATION_ERROR, Some t, payload)
             else
               let payload' = extract_payload rawData len 0 [];
                   checksum = rawData ! (3 + unat len);
                   calculatedChecksum = xor_bytes (START_BYTE XOR typeValue XOR len) payload'
               in if checksum \<noteq> calculatedChecksum then (COMMUNICATION_ERROR, Some t, payload')
                  else (NONE, Some t, payload')))"

text \<open>\<^verbatim>\<open>static_cast<uint8_t>(payload.size())\<close> keeps the low eight bits of the size:
  \<open>of_nat\<close> into \<open>8 word\<close>.\<close>

definition buildIOLinkMessage :: "MessageType \<Rightarrow> u8 list \<Rightarrow> u8 list" where
  "buildIOLinkMessage type payload =
     (let typeValue = type_value type;
          message = [START_BYTE] @ [typeValue] @ [of_nat (length payload)] @ payload;
          checksum = xor_bytes (START_BYTE XOR typeValue XOR of_nat (length payload)) payload
      in message @ [checksum])"

section \<open>Device capability model (IOLink.cpp, class IOLinkDevice)\<close>

record IOLinkDevice =
  m_deviceId :: u8
  m_vendorId :: u32
  m_productId :: u32

text \<open>The member functions of the base class. A reference parameter that the function may
  write (\<^verbatim>\<open>std::vector<uint8_t>& data\<close>) is returned next to the error code.\<close>

definition supportsOperationMode :: "IOLinkDevice \<Rightarrow> OperationMode \<Rightarrow> bool" where
  "supportsOperationMode dev mode = (mode = COM2)"

definition getMinCycleTime :: "IOLinkDevice \<Rightarrow> u8" where
  "getMinCycleTime dev = 2"

definition readProcessData :: "IOLinkDevice \<Rightarrow> u8 list \<Rightarrow> ErrorCode \<times> u8 list" where
  "readProcessData dev data = (NOT_SUPPORTED, data)"

definition writeProcessData :: "IOLinkDevice \<Rightarrow> u8 list \<Rightarrow> ErrorCode" where
  "writeProcessData dev data = NOT_SUPPORTED"

definition readParameter ::
  "IOLinkDevice \<Rightarrow> 16 word \<Rightarrow> u8 \<Rightarrow> u8 list \<Rightarrow> ErrorCode \<times> u8 list" where
  "readParameter dev index subindex data = (NOT_SUPPORTED, data)"

definition writeParameter :: "IOLinkDevice \<Rightarrow> 16 word \<Rightarrow> u8 \<Rightarrow> u8 list \<Rightarrow> ErrorCode" where
  "writeParameter dev index subindex data = NOT_SUPPORTED"

definition readDiagnostic :: "IOLinkDevice \<Rightarrow> u8 list \<Rightarrow> ErrorCode \<times> u8 list" where
  "readDiagnostic dev data = (NOT_SUPPORTED, data)"

section \<open>The platform: serial driver and millisecond clock\<close>

text \<open>The serial driver and the clock belong to the ClearCore platform, not to this repository.
  The master uses four of their operations: \<^verbatim>\<open>SendChar\<close>, \<^verbatim>\<open>BytesAvailable\<close>, \<^verbatim>\<open>ReadChar\<close>
  on the driver, and \<^verbatim>\<open>Milliseconds\<close>/\<^verbatim>\<open>delay\<close>. They are modelled by explicit state:
  \<^item> \<open>sent\<close>: every byte handed to \<^verbatim>\<open>SendChar\<close>, oldest first;
  \<^item> \<open>rx_buffer\<close>: the bytes the driver has received and the master has not read yet;
  \<^item> \<open>wire\<close>: what the line will still deliver, one chunk of bytes for each millisecond that
    passes (an empty chunk is a silent millisecond; an empty list is a line that stays silent);
  \<^item> \<open>millis\<close>: the milliseconds since start-up. \<^verbatim>\<open>Milliseconds()\<close> returns them as
    \<^verbatim>\<open>uint32_t\<close>, so the reading wraps at \<open>2 ^ 32\<close>.
  Time passes in \<^verbatim>\<open>delay\<close> only: \<^verbatim>\<open>delay(n)\<close> lasts \<open>n\<close> milliseconds, and sending, polling and
  reading take none.\<close>

record SerialDriver =
  sent :: "u8 list"
  rx_buffer :: "u8 list"
  wire :: "u8 list list"

definition SendChar :: "SerialDriver \<Rightarrow> u8 \<Rightarrow> SerialDriver" where
  "SendChar port charToSend = port\<lparr>sent := sent port @ [charToSend]\<rparr>"

definition BytesAvailable :: "SerialDriver \<Rightarrow> nat" where
  "BytesAvailable port = length (rx_buffer port)"

text \<open>On an empty buffer the driver returns \<open>-1\<close>, which is \<open>0xFF\<close> once narrowed to
  \<^verbatim>\<open>uint8_t\<close>; the master reads only after \<^verbatim>\<open>BytesAvailable() > 0\<close>.\<close>

definition ReadChar :: "SerialDriver \<Rightarrow> u8 \<times> SerialDriver" where
  "ReadChar port =
     (case rx_buffer port of
        [] \<Rightarrow> (0xFF, port)
      | c # rest \<Rightarrow> (c, port\<lparr>rx_buffer := rest\<rparr>))"

text \<open>One millisecond on the line: the next chunk of the wire reaches the receive buffer.\<close>

definition line_tick :: "SerialDriver \<Rightarrow> SerialDriver" where
  "line_tick port =
     (case wire port of
        [] \<Rightarrow> port
      | chunk # later \<Rightarrow> port\<lparr>rx_buffer := rx_buffer port @ chunk, wire := later\<rparr>)"

section \<open>The master (IOLink.cpp, class IOLinkMaster)\<close>

text \<open>The fields of the class (the event callback is not needed below), and the platform clock
  carried along with them.\<close>

record IOLinkMaster =
  m_serialPort :: SerialDriver
  m_devices :: "IOLinkDevice list"
  millis :: nat

text \<open>The constructor: \<^verbatim>\<open>m_devices.clear()\<close> on the given serial port. The clock reading at
  construction time is a parameter.\<close>

definition IOLinkMaster_init :: "SerialDriver \<Rightarrow> nat \<Rightarrow> IOLinkMaster" where
  "IOLinkMaster_init serialPort now = \<lparr>m_serialPort = serialPort, m_devices = [], millis = now\<rparr>"

definition Milliseconds :: "IOLinkMaster \<Rightarrow> u32" where
  "Milliseconds m = of_nat (millis m)"

definition tick :: "IOLinkMaster \<Rightarrow> IOLinkMaster" where
  "tick m = m\<lparr>m_serialPort := line_tick (m_serialPort m), millis := millis m + 1\<rparr>"

definition delay :: "nat \<Rightarrow> IOLinkMaster \<Rightarrow> IOLinkMaster" where
  "delay n m = (tick ^^ n) m"

text \<open>\<^verbatim>\<open>for (int i = 0; i < 10; i++) { m_serialPort.SendChar(wakeupPattern); }\<close>\<close>

function wakeup_loop :: "nat \<Rightarrow> SerialDriver \<Rightarrow> SerialDriver" where
  "wakeup_loop i port = (if i < 10 then wakeup_loop (i + 1) (SendChar port 0x00) else port)"
  by pat_completeness auto
termination
  by (relation "measure (\<lambda>(i, port). 10 - i)") auto

declare wakeup_loop.simps [simp del]

text \<open>\<^verbatim>\<open>port >= m_devices.size()\<close> compares a \<^verbatim>\<open>uint8_t\<close> with a \<^verbatim>\<open>size_t\<close>: the port number is
  widened, nothing wraps.\<close>

definition activatePort :: "IOLinkMaster \<Rightarrow> u8 \<Rightarrow> OperationMode \<Rightarrow> ErrorCode \<times> IOLinkMaster" where
  "activatePort m port mode =
     (if unat port \<ge> length (m_devices m) then (INVALID_PARAMETER, m)
      else (NONE, m\<lparr>m_serialPort := wakeup_loop 0 (m_serialPort m)\<rparr>))"

definition deactivatePort :: "IOLinkMaster \<Rightarrow> u8 \<Rightarrow> ErrorCode \<times> IOLinkMaster" where
  "deactivatePort m port =
     (if unat port \<ge> length (m_devices m) then (INVALID_PARAMETER, m)
      else (NONE, m))"

text \<open>\<^verbatim>\<open>std::make_shared<IOLinkDevice>(1, 0x12345678, 0x87654321)\<close>\<close>

definition dummyDevice :: IOLinkDevice where
  "dummyDevice = \<lparr>m_deviceId = 1, m_vendorId = 0x12345678, m_productId = 0x87654321\<rparr>"

definition scanForDevices :: "IOLinkMaster \<Rightarrow> ErrorCode \<times> IOLinkMaster" where
  "scanForDevices m = (NONE, m\<lparr>m_devices := [] @ [dummyDevice]\<rparr>)"

text \<open>\<open>None\<close> is the \<^verbatim>\<open>nullptr\<close> of the source.\<close>

definition getDevice :: "IOLinkMaster \<Rightarrow> u8 \<Rightarrow> IOLinkDevice option" where
  "getDevice m port =
     (if unat port < length (m_devices m) then Some (m_devices m ! unat port) else None)"

text \<open>\<^verbatim>\<open>for (uint8_t byte : message) { m_serialPort.SendChar(byte); }\<close>\<close>

fun send_bytes :: "SerialDriver \<Rightarrow> u8 list \<Rightarrow> SerialDriver" where
  "send_bytes port [] = port"
| "send_bytes port (byte # rest) = send_bytes (SendChar port byte) rest"

definition sendMessage :: "IOLinkMaster \<Rightarrow> u8 \<Rightarrow> MessageType \<Rightarrow> u8 list \<Rightarrow> ErrorCode \<times> IOLinkMaster" where
  "sendMessage m port type data =
     (if unat port \<ge> length (m_devices m) then (INVALID_PARAMETER, m)
      else
        let message = buildIOLinkMessage type data
        in (NONE, m\<lparr>m_serialPort := send_bytes (m_serialPort m) message\<rparr>))"

text \<open>\<^verbatim>\<open>while (m_serialPort.BytesAvailable() > 0) { rawData.push_back(m_serialPort.ReadChar()); }\<close>\<close>

function read_available :: "SerialDriver \<Rightarrow> u8 list \<Rightarrow> u8 list \<times> SerialDriver" where
  "read_available port rawData =
     (if BytesAvailable port > 0
      then (let (c, port') = ReadChar port in read_available port' (rawData @ [c]))
      else (rawData, port))"
  by pat_completeness auto
termination
  by (relation "measure (\<lambda>(port, rawData). length (rx_buffer port))")
    (auto simp: BytesAvailable_def ReadChar_def split: list.splits)

declare read_available.simps [simp del]

text \<open>The \<^verbatim>\<open>while ((Milliseconds() - startTime) < timeout)\<close> loop of receiveMessage, with the
  local variables \<open>startTime\<close> and \<open>rawData\<close> and the out-parameter \<open>data\<close> as arguments. The
  subtraction is on \<^verbatim>\<open>uint32_t\<close> and wraps. \<open>receivedType\<close> is declared without a value and
  \<open>payload\<close> empty in every round.\<close>

function receive_loop ::
  "IOLinkMaster \<Rightarrow> u32 \<Rightarrow> MessageType \<Rightarrow> u8 list \<Rightarrow> u32 \<Rightarrow> u8 list
     \<Rightarrow> ErrorCode \<times> u8 list \<times> IOLinkMaster" where
  "receive_loop m startTime type data timeout rawData =
     (if (Milliseconds m - startTime) < timeout then
        (if BytesAvailable (m_serialPort m) > 0 then
           (let (rawData', port') = read_available (m_serialPort m) rawData;
                m' = m\<lparr>m_serialPort := port'\<rparr>;
                (result, receivedType, payload) = parseIOLinkMessage rawData' None []
            in if result = NONE \<and> receivedType = Some type then (NONE, payload, m')
               else receive_loop (delay 1 m') startTime type data timeout rawData')
         else receive_loop (delay 1 m) startTime type data timeout rawData)
      else (TIMEOUT, data, m))"
  by pat_completeness auto
termination
proof -
  have inc: "unat (e + 1) = Suc (unat e)" if "e < t" for e t :: u32
  proof -
    have "e + 1 \<noteq> 0"
    proof
      assume "e + 1 = 0"
      then have "e = - 1"
        by (simp add: eq_neg_iff_add_eq_0)
      with that show False
        by simp
    qed
    then show ?thesis
      using unatSuc [of e] by (simp add: add.commute)
  qed
  have step: "unat timeout - unat (Milliseconds (delay 1 m') - startTime)
      < unat timeout - unat (Milliseconds m - startTime)"
    if "Milliseconds m - startTime < timeout" and "millis m' = millis m"
    for m m' :: IOLinkMaster and startTime timeout :: u32
  proof -
    have "Milliseconds (delay 1 m') - startTime = (Milliseconds m - startTime) + 1"
      using that(2) by (simp add: Milliseconds_def delay_def tick_def)
    then have "unat (Milliseconds (delay 1 m') - startTime)
        = Suc (unat (Milliseconds m - startTime))"
      by (simp only: inc [OF that(1)])
    moreover have "unat (Milliseconds m - startTime) < unat timeout"
      using that(1) by (simp add: word_less_nat_alt)
    ultimately show ?thesis
      by linarith
  qed
  show ?thesis
    by (relation "measure (\<lambda>(m, startTime, type, data, timeout, rawData).
          unat timeout - unat (Milliseconds m - startTime))")
      (auto simp del: One_nat_def intro!: step)
qed

declare receive_loop.simps [simp del]

definition receiveMessage ::
  "IOLinkMaster \<Rightarrow> u8 \<Rightarrow> MessageType \<Rightarrow> u8 list \<Rightarrow> u32 \<Rightarrow> ErrorCode \<times> u8 list \<times> IOLinkMaster" where
  "receiveMessage m port type data timeout =
     (if unat port \<ge> length (m_devices m) then (INVALID_PARAMETER, data, m)
      else
        let startTime = Milliseconds m;
            rawData = []
        in receive_loop m startTime type data timeout rawData)"

section \<open>Notions used to state the properties\<close>

text \<open>A line on which nothing was sent, nothing is buffered and nothing will ever arrive: no
  device is connected.\<close>

definition silent_line :: SerialDriver where
  "silent_line = \<lparr>sent = [], rx_buffer = [], wire = []\<rparr>"

text \<open>Flipping bit \<open>k\<close> of byte \<open>i\<close> of a frame.\<close>

definition flip_bit :: "u8 list \<Rightarrow> nat \<Rightarrow> nat \<Rightarrow> u8 list" where
  "flip_bit frame i k = frame[i := frame ! i XOR push_bit k 1]"

text \<open>Every byte the master can ever read from the port: what is buffered, then what the line
  still delivers.\<close>

definition incoming :: "SerialDriver \<Rightarrow> u8 list" where
  "incoming port = rx_buffer port @ concat (wire port)"

text \<open>A structurally valid frame of the given type starts at offset \<open>k\<close> of a byte stream:
  the parser accepts the bytes from there on and reports that type.\<close>

definition frame_at :: "u8 list \<Rightarrow> MessageType \<Rightarrow> nat \<Rightarrow> bool" where
  "frame_at stream type k =
     (case parseIOLinkMessage (drop k stream) None [] of
        (result, receivedType, payload) \<Rightarrow> result = NONE \<and> receivedType = Some type)"

text \<open>No structurally valid frame of the given type ever arrives at the port.\<close>

definition no_frame_arrives :: "SerialDriver \<Rightarrow> MessageType \<Rightarrow> bool" where
  "no_frame_arrives port type =
     (\<forall>k \<in> set [0 ..< Suc (length (incoming port))]. \<not> frame_at (incoming port) type k)"

text \<open>Three lines used as examples. The first delivers the process-data frame
  \<open>A5 01 00 A4\<close> in pieces over three milliseconds. The second holds a complete process-data
  frame and delivers a complete parameter frame one millisecond later. The third holds a
  parameter frame whose checksum byte is wrong (\<open>E5\<close> for \<open>E4\<close>) and delivers the intact frame
  one millisecond later.\<close>

definition slow_line :: SerialDriver where
  "slow_line = \<lparr>sent = [], rx_buffer = [0xA5, 0x01], wire = [[0x00], [], [0xA4]]\<rparr>"

definition other_type_first :: SerialDriver where
  "other_type_first =
     \<lparr>sent = [], rx_buffer = buildIOLinkMessage PROCESS_DATA [0x11],
      wire = [buildIOLinkMessage PARAMETER [0x42]]\<rparr>"

definition bad_checksum_first :: SerialDriver where
  "bad_checksum_first =
     \<lparr>sent = [], rx_buffer = [0xA5, 0x02, 0x01, 0x42, 0xE5],
      wire = [buildIOLinkMessage PARAMETER [0x42]]\<rparr>"

text \<open>The four checks of the parser, in one predicate over the input bytes.\<close>

definition frame_ok :: "u8 list \<Rightarrow> bool" where
  "frame_ok rawData =
     (4 \<le> length rawData
      \<and> rawData ! 0 = START_BYTE
      \<and> value_type (rawData ! 1) \<noteq> None
      \<and> unat (rawData ! 2) + 4 \<le> length rawData
      \<and> rawData ! (3 + unat (rawData ! 2))
          = xor_bytes (START_BYTE XOR rawData ! 1 XOR rawData ! 2)
              (take (unat (rawData ! 2)) (drop 3 rawData)))"

section \<open>Facts about the codec\<close>

lemma value_type_type_value: "value_type (type_value t) = Some t"
  by (cases t) (simp_all add: value_type_def)

lemma u8_inc: "unat (i + 1) = Suc (unat i)" if "i < len" for i len :: u8
proof -
  have "i + 1 \<noteq> 0"
  proof
    assume "i + 1 = 0"
    then have "i = - 1"
      by (simp add: eq_neg_iff_add_eq_0)
    with that show False
      by simp
  qed
  then show ?thesis
    using unatSuc [of i] by (simp add: add.commute)
qed

text \<open>The extraction loop copies \<open>len - i\<close> bytes from position \<open>3 + i\<close> on, provided the
  input holds them (which the size check of the parser guarantees).\<close>

lemma extract_payload_take_drop:
  "3 + unat len \<le> length rawData \<Longrightarrow> unat i \<le> unat len \<Longrightarrow>
   extract_payload rawData len i payload
     = payload @ take (unat len - unat i) (drop (3 + unat i) rawData)"
proof (induction rawData len i payload rule: extract_payload.induct)
  case (1 rawData len i payload)
  show ?case
  proof (cases "i < len")
    case True
    then have inc: "unat (i + 1) = Suc (unat i)"
      by (rule u8_inc)
    from True have lt: "unat i < unat len"
      by (simp add: word_less_nat_alt)
    have "extract_payload rawData len i payload
        = extract_payload rawData len (i + 1) (payload @ [rawData ! (3 + unat i)])"
      using True by (subst extract_payload.simps) simp
    also have "\<dots> = (payload @ [rawData ! (3 + unat i)])
        @ take (unat len - unat (i + 1)) (drop (3 + unat (i + 1)) rawData)"
      using "1.IH" [OF True "1.prems"(1)] lt inc by simp
    also have "\<dots> = payload @ take (unat len - unat i) (drop (3 + unat i) rawData)"
    proof -
      have "3 + unat i < length rawData"
        using lt "1.prems"(1) by simp
      then have "drop (3 + unat i) rawData
          = rawData ! (3 + unat i) # drop (Suc (3 + unat i)) rawData"
        by (rule Cons_nth_drop_Suc [symmetric])
      moreover have "unat len - unat i = Suc (unat len - Suc (unat i))"
        using lt by simp
      ultimately show ?thesis
        by (simp add: inc)
    qed
    finally show ?thesis .
  next
    case False
    with "1.prems"(2) have "unat len = unat i"
      by (simp add: word_less_nat_alt)
    with False show ?thesis
      by (subst extract_payload.simps) simp
  qed
qed

lemma extract_payload_start:
  "3 + unat len \<le> length rawData \<Longrightarrow>
   extract_payload rawData len 0 [] = take (unat len) (drop 3 rawData)"
  by (simp add: extract_payload_take_drop)

lemma buildIOLinkMessage_bytes:
  "buildIOLinkMessage t payload
     = START_BYTE # type_value t # of_nat (length payload) # payload
       @ [xor_bytes (START_BYTE XOR type_value t XOR of_nat (length payload)) payload]"
  by (simp add: buildIOLinkMessage_def Let_def)

lemma parse_build:
  assumes "length payload \<le> 255"
  shows "parseIOLinkMessage (buildIOLinkMessage t payload) ty0 p0 = (NONE, Some t, payload)"
proof -
  let ?len = "of_nat (length payload) :: u8"
  have ulen: "unat ?len = length payload"
    using assms by (simp add: unat_of_nat)
  let ?raw = "buildIOLinkMessage t payload"
  note raw = buildIOLinkMessage_bytes [of t payload]
  have ex: "extract_payload ?raw ?len 0 [] = payload"
    by (subst extract_payload_start) (simp_all add: raw ulen)
  have chk: "?raw ! (3 + length payload)
      = xor_bytes (START_BYTE XOR type_value t XOR ?len) payload"
    by (simp add: raw nth_append)
  have len: "length ?raw = length payload + 4"
    by (simp add: raw)
  have n0: "?raw ! 0 = START_BYTE" and n1: "?raw ! 1 = type_value t" and n2: "?raw ! 2 = ?len"
    by (simp_all add: raw)
  show ?thesis
    unfolding parseIOLinkMessage_def
    by (simp add: len n0 n1 n2 value_type_type_value ulen ex chk Let_def del: One_nat_def)
qed

text \<open>The parser succeeds exactly on the inputs that pass the four checks, and then returns
  the type of the type byte and the bytes after the header, as many as the length byte says.\<close>

lemma parse_frame_ok:
  assumes "frame_ok rawData"
  shows "parseIOLinkMessage rawData ty0 p0
    = (NONE, value_type (rawData ! 1), take (unat (rawData ! 2)) (drop 3 rawData))"
proof -
  from assms have size: "3 + unat (rawData ! 2) \<le> length rawData"
    by (simp add: frame_ok_def)
  from assms obtain t where "value_type (rawData ! 1) = Some t"
    by (auto simp: frame_ok_def)
  with assms show ?thesis
    by (simp add: parseIOLinkMessage_def frame_ok_def Let_def extract_payload_start [OF size]
        del: One_nat_def)
qed

lemma parse_not_frame_ok:
  assumes "\<not> frame_ok rawData"
  shows "fst (parseIOLinkMessage rawData ty0 p0) = COMMUNICATION_ERROR"
proof (cases "3 + unat (rawData ! 2) \<le> length rawData")
  case True
  with assms show ?thesis
    by (auto simp: parseIOLinkMessage_def frame_ok_def Let_def extract_payload_start [OF True]
        split: option.splits simp del: One_nat_def)
next
  case False
  then show ?thesis
    by (auto simp: parseIOLinkMessage_def Let_def split: option.splits simp del: One_nat_def)
qed

lemma parse_NONE_iff: "fst (parseIOLinkMessage rawData ty0 p0) = NONE \<longleftrightarrow> frame_ok rawData"
  using parse_frame_ok [of rawData ty0 p0] parse_not_frame_ok [of rawData ty0 p0]
  by (cases "frame_ok rawData") simp_all

lemma parse_ERROR_iff:
  "fst (parseIOLinkMessage rawData ty0 p0) = COMMUNICATION_ERROR \<longleftrightarrow> \<not> frame_ok rawData"
  using parse_frame_ok [of rawData ty0 p0] parse_not_frame_ok [of rawData ty0 p0]
  by (cases "frame_ok rawData") simp_all

subsection \<open>The XOR checksum\<close>

lemma push_bit_nonzero: "k < 8 \<Longrightarrow> (push_bit k 1 :: u8) \<noteq> 0"
  by simp

lemma xor_bytes_acc: "xor_bytes a bytes = a XOR xor_bytes 0 bytes"
proof (induction bytes arbitrary: a)
  case Nil
  show ?case by simp
next
  case (Cons b bytes)
  have "xor_bytes a (b # bytes) = (a XOR b) XOR xor_bytes 0 bytes"
    using Cons.IH [of "a XOR b"] by simp
  also have "\<dots> = a XOR (b XOR xor_bytes 0 bytes)"
    by (simp add: xor.assoc)
  also have "\<dots> = a XOR xor_bytes 0 (b # bytes)"
    using Cons.IH [of "0 XOR b"] by simp
  finally show ?case .
qed

lemma xor_bytes_update:
  "j < length bytes \<Longrightarrow> xor_bytes a (bytes[j := bytes ! j XOR d]) = xor_bytes a bytes XOR d"
proof (induction bytes arbitrary: a j)
  case Nil
  then show ?case by simp
next
  case (Cons b bytes)
  show ?case
  proof (cases j)
    case 0
    have "xor_bytes a ((b # bytes)[0 := (b # bytes) ! 0 XOR d]) = xor_bytes (a XOR (b XOR d)) bytes"
      by simp
    also have "\<dots> = (a XOR (b XOR d)) XOR xor_bytes 0 bytes"
      by (rule xor_bytes_acc)
    also have "\<dots> = ((a XOR b) XOR xor_bytes 0 bytes) XOR d"
      by (simp add: xor.assoc xor.commute xor.left_commute)
    also have "\<dots> = xor_bytes a (b # bytes) XOR d"
      using xor_bytes_acc [of "a XOR b" bytes] by simp
    finally show ?thesis
      using 0 by simp
  next
    case (Suc j')
    with Cons.prems have "j' < length bytes"
      by simp
    from Cons.IH [OF this, of "a XOR b"] Suc show ?thesis
      by simp
  qed
qed

lemma xor_same_imp_zero: "(x :: u8) = x XOR d \<Longrightarrow> d = 0"
  by (metis xor.left_neutral xor_self_eq xor.assoc)

subsection \<open>One flipped bit, byte by byte\<close>

lemma flip_start:
  assumes "k < 8"
  shows "\<not> frame_ok (flip_bit (buildIOLinkMessage t payload) 0 k)"
proof -
  have "flip_bit (buildIOLinkMessage t payload) 0 k ! 0 = START_BYTE XOR push_bit k 1"
    by (simp add: flip_bit_def buildIOLinkMessage_bytes)
  moreover have "START_BYTE XOR push_bit k 1 \<noteq> START_BYTE"
    using push_bit_nonzero [OF assms] xor_same_imp_zero [of START_BYTE "push_bit k 1"] by metis
  ultimately show ?thesis
    by (simp add: frame_ok_def)
qed

lemma flip_type:
  assumes "length payload \<le> 255" and "k < 8"
  shows "\<not> frame_ok (flip_bit (buildIOLinkMessage t payload) 1 k)"
proof
  let ?len = "of_nat (length payload) :: u8"
  let ?d = "push_bit k 1 :: u8"
  let ?c = "xor_bytes (START_BYTE XOR type_value t XOR ?len) payload"
  assume ok: "frame_ok (flip_bit (buildIOLinkMessage t payload) 1 k)"
  have ulen: "unat ?len = length payload"
    using assms(1) by (simp add: unat_of_nat)
  have raw': "flip_bit (buildIOLinkMessage t payload) 1 k
      = START_BYTE # (type_value t XOR ?d) # ?len # payload @ [?c]"
    by (simp add: flip_bit_def buildIOLinkMessage_bytes)
  from ok have "?c = xor_bytes (START_BYTE XOR (type_value t XOR ?d) XOR ?len) payload"
    unfolding raw' frame_ok_def by (simp add: ulen nth_append)
  also have "\<dots> = (START_BYTE XOR (type_value t XOR ?d) XOR ?len) XOR xor_bytes 0 payload"
    by (rule xor_bytes_acc)
  also have "\<dots> = ((START_BYTE XOR type_value t XOR ?len) XOR xor_bytes 0 payload) XOR ?d"
    by (simp add: xor.assoc xor.commute xor.left_commute)
  also have "\<dots> = ?c XOR ?d"
    using xor_bytes_acc [of "START_BYTE XOR type_value t XOR ?len" payload] by simp
  finally have "?d = 0"
    by (rule xor_same_imp_zero)
  with push_bit_nonzero [OF assms(2)] show False
    by simp
qed

lemma flip_payload:
  assumes "length payload \<le> 255" and "j < length payload" and "k < 8"
  shows "\<not> frame_ok (flip_bit (buildIOLinkMessage t payload) (Suc (Suc (Suc j))) k)"
proof
  let ?len = "of_nat (length payload) :: u8"
  let ?d = "push_bit k 1 :: u8"
  let ?c = "xor_bytes (START_BYTE XOR type_value t XOR ?len) payload"
  let ?p = "payload[j := payload ! j XOR ?d]"
  assume ok: "frame_ok (flip_bit (buildIOLinkMessage t payload) (Suc (Suc (Suc j))) k)"
  have ulen: "unat ?len = length payload"
    using assms(1) by (simp add: unat_of_nat)
  have raw': "flip_bit (buildIOLinkMessage t payload) (Suc (Suc (Suc j))) k
      = START_BYTE # type_value t # ?len # ?p @ [?c]"
    using assms(2) by (simp add: flip_bit_def buildIOLinkMessage_bytes nth_append list_update_append)
  from ok have "?c = xor_bytes (START_BYTE XOR type_value t XOR ?len) ?p"
    unfolding raw' frame_ok_def by (simp add: ulen nth_append)
  also have "\<dots> = ?c XOR ?d"
    using assms(2) by (rule xor_bytes_update)
  finally have "?d = 0"
    by (rule xor_same_imp_zero)
  with push_bit_nonzero [OF assms(3)] show False
    by simp
qed

lemma flip_length:
  assumes "length payload \<le> 255" and "k < 8"
  shows "frame_ok (flip_bit (buildIOLinkMessage t payload) 2 k) \<longleftrightarrow>
    (let len' = of_nat (length payload) XOR push_bit k 1 :: u8
     in unat len' < length payload
        \<and> payload ! unat len' = xor_bytes (START_BYTE XOR type_value t XOR len') (take (unat len') payload))"
proof -
  let ?len = "of_nat (length payload) :: u8"
  let ?d = "push_bit k 1 :: u8"
  let ?len' = "?len XOR ?d"
  let ?c = "xor_bytes (START_BYTE XOR type_value t XOR ?len) payload"
  have ulen: "unat ?len = length payload"
    using assms(1) by (simp add: unat_of_nat)
  have "?len' \<noteq> ?len"
    using push_bit_nonzero [OF assms(2)] xor_same_imp_zero [of ?len ?d] by metis
  then have ne: "unat ?len' \<noteq> length payload"
    using ulen by (metis unsigned_word_eqI)
  have raw': "flip_bit (buildIOLinkMessage t payload) 2 k
      = START_BYTE # type_value t # ?len' # payload @ [?c]"
    by (simp add: flip_bit_def buildIOLinkMessage_bytes numeral_2_eq_2)
  show ?thesis
  proof (cases "unat ?len' < length payload")
    case True
    then show ?thesis
      unfolding raw' frame_ok_def
      by (simp add: nth_append value_type_type_value Let_def START_BYTE_def)
  next
    case False
    with ne show ?thesis
      unfolding raw' frame_ok_def by (simp add: Let_def)
  qed
qed

section \<open>Facts about the loops over the serial port\<close>

lemma wakeup_loop_sent:
  "wakeup_loop i port = port\<lparr>sent := sent port @ replicate (10 - i) 0x00\<rparr>"
proof (induction i port rule: wakeup_loop.induct)
  case (1 i port)
  show ?case
  proof (cases "i < 10")
    case True
    then have "10 - i = Suc (10 - (i + 1))"
      by simp
    with True "1.IH" show ?thesis
      by (subst wakeup_loop.simps) (simp add: SendChar_def)
  next
    case False
    then show ?thesis
      by (subst wakeup_loop.simps) simp
  qed
qed

lemma send_bytes_sent: "send_bytes port bytes = port\<lparr>sent := sent port @ bytes\<rparr>"
  by (induction bytes arbitrary: port) (simp_all add: SendChar_def)

lemma read_available_all:
  "read_available port rawData = (rawData @ rx_buffer port, port\<lparr>rx_buffer := []\<rparr>)"
proof (induction port rawData rule: read_available.induct)
  case (1 port rawData)
  show ?case
  proof (cases "rx_buffer port")
    case Nil
    then show ?thesis
      by (subst read_available.simps) (simp add: BytesAvailable_def)
  next
    case (Cons c rest)
    then have "read_available port rawData
        = read_available (port\<lparr>rx_buffer := rest\<rparr>) (rawData @ [c])"
      by (subst read_available.simps) (simp add: BytesAvailable_def ReadChar_def)
    also have "\<dots> = ((rawData @ [c]) @ rest, port\<lparr>rx_buffer := []\<rparr>)"
      using "1.IH" [of "(c, port\<lparr>rx_buffer := rest\<rparr>)" c "port\<lparr>rx_buffer := rest\<rparr>"] Cons
      by (simp add: BytesAvailable_def ReadChar_def)
    finally show ?thesis
      using Cons by simp
  qed
qed

subsection \<open>The receive loop\<close>

lemma parse_accepts_iff:
  "(case parseIOLinkMessage rawData None [] of
      (result, receivedType, payload) \<Rightarrow> result = NONE \<and> receivedType = Some type)
   \<longleftrightarrow> frame_ok rawData \<and> value_type (rawData ! 1) = Some type"
proof (cases "frame_ok rawData")
  case True
  then show ?thesis
    by (simp add: parse_frame_ok)
next
  case False
  from parse_not_frame_ok [OF this, of None "[]"] False show ?thesis
    by (auto split: prod.splits)
qed

text \<open>One round of the loop, with the inner read loop and the parser replaced by what they
  compute.\<close>

lemma receive_loop_unfold:
  "receive_loop m startTime type data timeout rawData =
     (if Milliseconds m - startTime < timeout then
        (if rx_buffer (m_serialPort m) \<noteq> [] then
           (let rawData' = rawData @ rx_buffer (m_serialPort m);
                m' = m\<lparr>m_serialPort := (m_serialPort m)\<lparr>rx_buffer := []\<rparr>\<rparr>
            in if frame_ok rawData' \<and> value_type (rawData' ! 1) = Some type
               then (NONE, take (unat (rawData' ! 2)) (drop 3 rawData'), m')
               else receive_loop (delay 1 m') startTime type data timeout rawData')
         else receive_loop (delay 1 m) startTime type data timeout rawData)
      else (TIMEOUT, data, m))"
proof -
  let ?raw = "rawData @ rx_buffer (m_serialPort m)"
  show ?thesis
  proof (cases "frame_ok ?raw")
    case True
    show ?thesis
      by (subst receive_loop.simps)
        (simp add: read_available_all BytesAvailable_def Let_def parse_frame_ok [OF True] True
          del: One_nat_def)
  next
    case False
    obtain r ty p where p: "parseIOLinkMessage ?raw None [] = (r, ty, p)"
      by (cases "parseIOLinkMessage ?raw None []") auto
    with parse_not_frame_ok [OF False, of None "[]"] have "r = COMMUNICATION_ERROR"
      by simp
    with p False show ?thesis
      by (subst receive_loop.simps)
        (simp add: read_available_all BytesAvailable_def Let_def del: One_nat_def)
  qed
qed

lemma u32_inc: "unat (e + 1) = Suc (unat e)" if "e < t" for e t :: u32
proof -
  have "e + 1 \<noteq> 0"
  proof
    assume "e + 1 = 0"
    then have "e = - 1"
      by (simp add: eq_neg_iff_add_eq_0)
    with that show False
      by simp
  qed
  then show ?thesis
    using unatSuc [of e] by (simp add: add.commute)
qed

lemma elapsed_delay:
  assumes "Milliseconds m - startTime < timeout" and "millis m' = millis m"
  shows "unat (Milliseconds (delay 1 m') - startTime) = Suc (unat (Milliseconds m - startTime))"
proof -
  have "Milliseconds (delay 1 m') - startTime = (Milliseconds m - startTime) + 1"
    using assms(2) by (simp add: Milliseconds_def delay_def tick_def)
  then show ?thesis
    by (simp only: u32_inc [OF assms(1)])
qed

lemma millis_delay: "millis (delay n m) = millis m + n"
  by (induction n) (simp_all add: delay_def tick_def)

text \<open>Whenever the loop ends with TIMEOUT, the clock has advanced by what was left of the
  timeout when the loop was entered.\<close>

lemma receive_loop_timeout_elapsed:
  "n = unat timeout - unat (Milliseconds m - startTime) \<Longrightarrow>
   receive_loop m startTime type data timeout rawData = (TIMEOUT, data', m') \<Longrightarrow>
   millis m' = millis m + n"
proof (induction n arbitrary: m rawData)
  case 0
  then have "\<not> Milliseconds m - startTime < timeout"
    by (simp add: word_less_nat_alt)
  with "0.prems"(2) show ?case
    by (subst (asm) receive_loop_unfold) simp
next
  case (Suc n)
  then have lt: "Milliseconds m - startTime < timeout"
    by (simp add: word_less_nat_alt)
  show ?case
  proof (cases "rx_buffer (m_serialPort m) = []")
    case True
    with lt Suc.prems(2)
    have run: "receive_loop (delay 1 m) startTime type data timeout rawData = (TIMEOUT, data', m')"
      by (subst (asm) receive_loop_unfold) (simp del: One_nat_def)
    have "n = unat timeout - unat (Milliseconds (delay 1 m) - startTime)"
      using Suc.prems(1) elapsed_delay [OF lt refl] by simp
    from Suc.IH [OF this run] show ?thesis
      by (simp add: millis_delay)
  next
    case False
    let ?raw = "rawData @ rx_buffer (m_serialPort m)"
    let ?m = "m\<lparr>m_serialPort := (m_serialPort m)\<lparr>rx_buffer := []\<rparr>\<rparr>"
    from False lt Suc.prems(2)
    have run: "receive_loop (delay 1 ?m) startTime type data timeout ?raw = (TIMEOUT, data', m')"
      by (subst (asm) receive_loop_unfold) (simp add: Let_def split: if_splits del: One_nat_def)
    have "n = unat timeout - unat (Milliseconds (delay 1 ?m) - startTime)"
      using Suc.prems(1) elapsed_delay [OF lt, of ?m] by simp
    from Suc.IH [OF this run] show ?thesis
      by (simp add: millis_delay)
  qed
qed

text \<open>What the parser accepts depends on the bytes of the frame only: bytes after it change
  nothing.\<close>

lemma frame_ok_append:
  assumes "frame_ok rawData"
  shows "frame_ok (rawData @ rest) \<and> (rawData @ rest) ! 1 = rawData ! 1"
proof -
  from assms have len: "4 \<le> length rawData" and size: "unat (rawData ! 2) + 4 \<le> length rawData"
    by (simp_all add: frame_ok_def)
  from len have n: "(rawData @ rest) ! 0 = rawData ! 0" "(rawData @ rest) ! 1 = rawData ! 1"
    "(rawData @ rest) ! 2 = rawData ! 2"
    by (auto simp: nth_append)
  from size have c: "(rawData @ rest) ! (3 + unat (rawData ! 2)) = rawData ! (3 + unat (rawData ! 2))"
    by (simp add: nth_append)
  from size have t: "take (unat (rawData ! 2)) (drop 3 (rawData @ rest))
      = take (unat (rawData ! 2)) (drop 3 rawData)"
    by simp
  from assms len size show ?thesis
    unfolding frame_ok_def n c t by simp
qed

lemma frame_at_iff:
  "frame_at stream type k
     \<longleftrightarrow> frame_ok (drop k stream) \<and> value_type (drop k stream ! 1) = Some type"
  unfolding frame_at_def by (rule parse_accepts_iff)

lemma incoming_line_tick: "incoming (line_tick port) = incoming port"
  by (simp add: incoming_def line_tick_def split: list.splits)

lemma delay_1: "delay 1 m = m\<lparr>m_serialPort := line_tick (m_serialPort m), millis := millis m + 1\<rparr>"
  by (simp add: delay_def tick_def)

text \<open>If the bytes read so far, followed by everything still to come, do not start with a
  frame of the expected type, the loop ends with TIMEOUT.\<close>

lemma receive_loop_no_frame:
  "n = unat timeout - unat (Milliseconds m - startTime) \<Longrightarrow>
   \<not> frame_at (rawData @ incoming (m_serialPort m)) type 0 \<Longrightarrow>
   fst (receive_loop m startTime type data timeout rawData) = TIMEOUT"
proof (induction n arbitrary: m rawData)
  case 0
  then have "\<not> Milliseconds m - startTime < timeout"
    by (simp add: word_less_nat_alt)
  then show ?case
    by (subst receive_loop_unfold) simp
next
  case (Suc n)
  then have lt: "Milliseconds m - startTime < timeout"
    by (simp add: word_less_nat_alt)
  show ?case
  proof (cases "rx_buffer (m_serialPort m) = []")
    case True
    have n: "n = unat timeout - unat (Milliseconds (delay 1 m) - startTime)"
      using Suc.prems(1) elapsed_delay [OF lt refl] by simp
    have "\<not> frame_at (rawData @ incoming (m_serialPort (delay 1 m))) type 0"
      using Suc.prems(2) by (simp add: delay_1 incoming_line_tick del: One_nat_def)
    from Suc.IH [OF n this] True lt show ?thesis
      by (subst receive_loop_unfold) (simp del: One_nat_def)
  next
    case False
    let ?raw = "rawData @ rx_buffer (m_serialPort m)"
    let ?m = "m\<lparr>m_serialPort := (m_serialPort m)\<lparr>rx_buffer := []\<rparr>\<rparr>"
    have stream: "?raw @ incoming (m_serialPort (delay 1 ?m)) = rawData @ incoming (m_serialPort m)"
      by (simp add: delay_1 incoming_line_tick del: One_nat_def) (simp add: incoming_def)
    have n: "n = unat timeout - unat (Milliseconds (delay 1 ?m) - startTime)"
      using Suc.prems(1) elapsed_delay [OF lt, of ?m] by simp
    have rejected: "\<not> (frame_ok ?raw \<and> value_type (?raw ! 1) = Some type)"
    proof
      assume ok: "frame_ok ?raw \<and> value_type (?raw ! 1) = Some type"
      with frame_ok_append [of ?raw "concat (wire (m_serialPort m))"]
      have "frame_ok (rawData @ incoming (m_serialPort m))
          \<and> value_type ((rawData @ incoming (m_serialPort m)) ! 1) = Some type"
        by (simp add: incoming_def)
      then have "frame_at (rawData @ incoming (m_serialPort m)) type 0"
        by (simp add: frame_at_iff)
      with Suc.prems(2) show False
        by simp
    qed
    have "\<not> frame_at (?raw @ incoming (m_serialPort (delay 1 ?m))) type 0"
      unfolding stream by (rule Suc.prems(2))
    from Suc.IH [OF n this] False lt rejected show ?thesis
      by (subst receive_loop_unfold) (simp add: Let_def del: One_nat_def)
  qed
qed

section \<open>Round trip of the codec\<close>

text \<open>Claim C1. For each of the four message types and every payload of at most 255 bytes,
  parsing the bytes that buildIOLinkMessage produces succeeds and returns the same type and
  the same payload, whatever the out-parameters held before. In particular the process-data
  frame with payload \<open>[0x12, 0x34]\<close> is \<open>[0xA5, 0x01, 0x02, 0x12, 0x34, c]\<close> with \<open>c\<close> the XOR
  of the five bytes before it, and parsing these six bytes returns process-data and
  \<open>[0x12, 0x34]\<close>.\<close>

theorem roundtrip_parse_build:
  "(length payload \<le> 255 \<longrightarrow>
      parseIOLinkMessage (buildIOLinkMessage t payload) ty0 p0 = (NONE, Some t, payload))
   \<and> buildIOLinkMessage PROCESS_DATA [0x12, 0x34]
       = [0xA5, 0x01, 0x02, 0x12, 0x34, 0xA5 XOR 0x01 XOR 0x02 XOR 0x12 XOR 0x34]
   \<and> parseIOLinkMessage [0xA5, 0x01, 0x02, 0x12, 0x34, 0xA5 XOR 0x01 XOR 0x02 XOR 0x12 XOR 0x34]
         ty0 p0
       = (NONE, Some PROCESS_DATA, [0x12, 0x34])"
proof -
  have scenario: "buildIOLinkMessage PROCESS_DATA [0x12, 0x34]
      = [0xA5, 0x01, 0x02, 0x12, 0x34, 0xA5 XOR 0x01 XOR 0x02 XOR 0x12 XOR 0x34]"
    by (simp add: buildIOLinkMessage_bytes START_BYTE_def)
  have "parseIOLinkMessage (buildIOLinkMessage PROCESS_DATA [0x12, 0x34]) ty0 p0
      = (NONE, Some PROCESS_DATA, [0x12, 0x34])"
    by (rule parse_build) simp
  with scenario show ?thesis
    by (simp add: parse_build)
qed

theorem roundtrip_parse_build_witness:
  "length [0x01, 0x02, 0x03 :: u8] \<le> 255
   \<and> parseIOLinkMessage (buildIOLinkMessage EVENT [0x01, 0x02, 0x03]) None []
       = (NONE, Some EVENT, [0x01, 0x02, 0x03])"
  using roundtrip_parse_build [of "[0x01, 0x02, 0x03]" EVENT None "[]"] by simp

section \<open>One flipped bit in a frame\<close>

text \<open>Claim C2, as the code has it. Take the frame built for any type and any payload of at
  most 255 bytes and flip one bit of one byte before the checksum byte. If the byte is the
  start byte, the type byte or a payload byte, the parser fails with COMMUNICATION_ERROR. If
  it is the length byte, the parser fails with COMMUNICATION_ERROR too, except in one case,
  where it succeeds: the flipped length \<open>len'\<close> is smaller than the payload length, and the
  payload byte at index \<open>len'\<close> equals the XOR of the start byte, the type byte, \<open>len'\<close> and
  the first \<open>len'\<close> payload bytes.\<close>

theorem bit_flip_detection:
  "length payload \<le> 255 \<Longrightarrow> i < length payload + 3 \<Longrightarrow> k < 8 \<Longrightarrow>
     fst (parseIOLinkMessage (flip_bit (buildIOLinkMessage t payload) i k) ty0 p0)
       = (if i = 2
             \<and> (let len' = of_nat (length payload) XOR push_bit k 1 :: u8
                in unat len' < length payload
                   \<and> payload ! unat len'
                       = xor_bytes (START_BYTE XOR type_value t XOR len') (take (unat len') payload))
          then NONE else COMMUNICATION_ERROR)"
proof -
  assume short: "length payload \<le> 255" and i: "i < length payload + 3" and k: "k < 8"
  let ?raw' = "flip_bit (buildIOLinkMessage t payload) i k"
  have "i = 0 \<or> i = 1 \<or> i = 2 \<or> (\<exists>j. i = Suc (Suc (Suc j)) \<and> j < length payload)"
    using i by presburger
  then consider "i = 0" | "i = 1" | "i = 2"
    | j where "i = Suc (Suc (Suc j))" and "j < length payload"
    by blast
  then show ?thesis
  proof cases
    case 1
    with flip_start [OF k, of t payload] show ?thesis
      by (simp add: parse_ERROR_iff)
  next
    case 2
    with flip_type [OF short k, of t] show ?thesis
      by (simp add: parse_ERROR_iff)
  next
    case 3
    show ?thesis
    proof (cases "frame_ok ?raw'")
      case True
      then have "fst (parseIOLinkMessage ?raw' ty0 p0) = NONE"
        by (simp add: parse_NONE_iff)
      with True 3 flip_length [OF short k, of t] show ?thesis
        by simp
    next
      case False
      then have "fst (parseIOLinkMessage ?raw' ty0 p0) = COMMUNICATION_ERROR"
        by (simp add: parse_ERROR_iff)
      with False 3 flip_length [OF short k, of t] show ?thesis
        by simp
    qed
  next
    case 4
    with flip_payload [OF short 4(2) k, of t] show ?thesis
      by (simp add: parse_ERROR_iff)
  qed
qed

theorem bit_flip_detection_witness:
  "length [0x12, 0x34 :: u8] \<le> 255 \<and> (3 :: nat) < length [0x12, 0x34 :: u8] + 3 \<and> (0 :: nat) < 8
   \<and> fst (parseIOLinkMessage (flip_bit (buildIOLinkMessage PROCESS_DATA [0x12, 0x34]) 3 0) None [])
       = COMMUNICATION_ERROR"
proof -
  have short: "length [0x12, 0x34 :: u8] \<le> 255"
    and i: "(3 :: nat) < length [0x12, 0x34 :: u8] + 3" and k: "(0 :: nat) < 8"
    by simp_all
  from bit_flip_detection [OF short i k, of PROCESS_DATA None "[]"]
  have "fst (parseIOLinkMessage (flip_bit (buildIOLinkMessage PROCESS_DATA [0x12, 0x34]) 3 0) None [])
       = COMMUNICATION_ERROR"
    by simp
  with short i k show ?thesis
    by blast
qed

text \<open>The claim as the specification states it fails on the length byte. The process-data
  frame with payload \<open>[0xA4]\<close> is \<open>[0xA5, 0x01, 0x01, 0xA4, 0x01]\<close>. Flipping bit 0 of its length
  byte gives \<open>[0xA5, 0x01, 0x00, 0xA4, 0x01]\<close>, which the parser accepts as a process-data
  frame with an empty payload: the byte \<open>0xA4\<close> is the checksum of that shorter frame.\<close>

theorem bit_flip_length_counterexample:
  "length [0xA4 :: u8] \<le> 255 \<and> (2 :: nat) < length [0xA4 :: u8] + 3 \<and> (0 :: nat) < 8
   \<and> flip_bit (buildIOLinkMessage PROCESS_DATA [0xA4]) 2 0 = [0xA5, 0x01, 0x00, 0xA4, 0x01]
   \<and> parseIOLinkMessage (flip_bit (buildIOLinkMessage PROCESS_DATA [0xA4]) 2 0) None []
       = (NONE, Some PROCESS_DATA, [])"
proof -
  have flipped: "flip_bit (buildIOLinkMessage PROCESS_DATA [0xA4]) 2 0
      = [0xA5, 0x01, 0x00, 0xA4, 0x01]"
    by (simp add: flip_bit_def buildIOLinkMessage_bytes START_BYTE_def numeral_2_eq_2)
  have "frame_ok [0xA5, 0x01, 0x00, 0xA4, 0x01]"
    by (simp add: frame_ok_def START_BYTE_def value_type_def)
  from parse_frame_ok [OF this, of None "[]"]
  have "parseIOLinkMessage [0xA5, 0x01, 0x00, 0xA4, 0x01] None [] = (NONE, Some PROCESS_DATA, [])"
    by (simp add: value_type_def)
  with flipped show ?thesis
    by simp
qed

section \<open>The base device\<close>

text \<open>Claim C9. A device of the base class supports COM2 and no other operation mode, has a
  minimum cycle time of 2, and answers NOT_SUPPORTED to readProcessData, writeProcessData,
  readParameter, writeParameter and readDiagnostic on every input (leaving the caller's
  buffer as it was).\<close>

theorem base_device_defaults:
  "supportsOperationMode dev COM2
   \<and> \<not> supportsOperationMode dev SIO
   \<and> \<not> supportsOperationMode dev COM1
   \<and> \<not> supportsOperationMode dev COM3
   \<and> getMinCycleTime dev = 2
   \<and> readProcessData dev data = (NOT_SUPPORTED, data)
   \<and> writeProcessData dev data = NOT_SUPPORTED
   \<and> readParameter dev index subindex data = (NOT_SUPPORTED, data)
   \<and> writeParameter dev index subindex data = NOT_SUPPORTED
   \<and> readDiagnostic dev data = (NOT_SUPPORTED, data)"
  by (simp add: supportsOperationMode_def getMinCycleTime_def readProcessData_def
      writeProcessData_def readParameter_def writeParameter_def readDiagnostic_def)

section \<open>Port indices\<close>

text \<open>Claim C5. With a port index that is not below the number of configured ports (the size
  of the device table), activatePort, deactivatePort, sendMessage and receiveMessage return
  INVALID_PARAMETER and leave the whole state as it was: nothing is sent, nothing is read,
  no time passes.\<close>

theorem port_out_of_range:
  "length (m_devices m) \<le> unat port \<Longrightarrow>
     activatePort m port mode = (INVALID_PARAMETER, m)
     \<and> deactivatePort m port = (INVALID_PARAMETER, m)
     \<and> sendMessage m port type data = (INVALID_PARAMETER, m)
     \<and> receiveMessage m port type data timeout = (INVALID_PARAMETER, data, m)"
  by (simp add: activatePort_def deactivatePort_def sendMessage_def receiveMessage_def)

theorem port_out_of_range_witness:
  "length (m_devices \<lparr>m_serialPort = silent_line, m_devices = [dummyDevice], millis = 0\<rparr>)
     \<le> unat (1 :: u8)
   \<and> activatePort \<lparr>m_serialPort = silent_line, m_devices = [dummyDevice], millis = 0\<rparr> 1 COM2
       = (INVALID_PARAMETER, \<lparr>m_serialPort = silent_line, m_devices = [dummyDevice], millis = 0\<rparr>)
   \<and> deactivatePort \<lparr>m_serialPort = silent_line, m_devices = [dummyDevice], millis = 0\<rparr> 1
       = (INVALID_PARAMETER, \<lparr>m_serialPort = silent_line, m_devices = [dummyDevice], millis = 0\<rparr>)
   \<and> sendMessage \<lparr>m_serialPort = silent_line, m_devices = [dummyDevice], millis = 0\<rparr> 1
         PARAMETER [0x07]
       = (INVALID_PARAMETER, \<lparr>m_serialPort = silent_line, m_devices = [dummyDevice], millis = 0\<rparr>)
   \<and> receiveMessage \<lparr>m_serialPort = silent_line, m_devices = [dummyDevice], millis = 0\<rparr> 1
         PARAMETER [] 1000
       = (INVALID_PARAMETER, [],
          \<lparr>m_serialPort = silent_line, m_devices = [dummyDevice], millis = 0\<rparr>)"
  using port_out_of_range
    [of "\<lparr>m_serialPort = silent_line, m_devices = [dummyDevice], millis = 0\<rparr>" 1
      COM2 PARAMETER _ 1000]
  by simp

section \<open>Deactivation\<close>

text \<open>Claim C8, as the code has it. For every port index in range, deactivatePort returns
  NONE and changes nothing: the device of that port stays in the table, and getDevice on
  that port afterwards returns this device, not an empty result.\<close>

theorem deactivatePort_keeps_device:
  "unat port < length (m_devices m) \<Longrightarrow>
     deactivatePort m port = (NONE, m)
     \<and> getDevice (snd (deactivatePort m port)) port = Some (m_devices m ! unat port)"
  by (simp add: deactivatePort_def getDevice_def)

theorem deactivatePort_keeps_device_witness:
  "unat (0 :: u8) < length (m_devices (snd (scanForDevices (IOLinkMaster_init silent_line 0))))
   \<and> deactivatePort (snd (scanForDevices (IOLinkMaster_init silent_line 0))) 0
       = (NONE, snd (scanForDevices (IOLinkMaster_init silent_line 0)))
   \<and> getDevice (snd (deactivatePort (snd (scanForDevices (IOLinkMaster_init silent_line 0))) 0)) 0
       = Some dummyDevice"
proof -
  let ?m = "snd (scanForDevices (IOLinkMaster_init silent_line 0))"
  have in_range: "unat (0 :: u8) < length (m_devices ?m)"
    by (simp add: scanForDevices_def)
  have "m_devices ?m ! unat (0 :: u8) = dummyDevice"
    by (simp add: scanForDevices_def)
  with in_range deactivatePort_keeps_device [OF in_range] show ?thesis
    by metis
qed

text \<open>The claim as the specification states it fails after a scan: port 0 is in range,
  deactivation succeeds, and the device is still there.\<close>

theorem deactivatePort_destroys_counterexample:
  "unat (0 :: u8) < length (m_devices (snd (scanForDevices (IOLinkMaster_init silent_line 0))))
   \<and> \<not> (fst (deactivatePort (snd (scanForDevices (IOLinkMaster_init silent_line 0))) 0) = NONE
        \<and> getDevice (snd (deactivatePort (snd (scanForDevices (IOLinkMaster_init silent_line 0))) 0)) 0
            = None)"
  by (simp add: scanForDevices_def deactivatePort_def getDevice_def)

section \<open>Discovery and activation on a line without a device\<close>

text \<open>Claim C3, evaluated. A newly constructed master on a silent line scans: the scan sends
  nothing, and afterwards port 0 holds the device with identifier 1, vendor 0x12345678 and
  product 0x87654321, although nothing answered.\<close>

theorem scanForDevices_silent_line:
  "scanForDevices (IOLinkMaster_init silent_line 0)
     = (NONE, \<lparr>m_serialPort = silent_line, m_devices = [dummyDevice], millis = 0\<rparr>)
   \<and> sent (m_serialPort (snd (scanForDevices (IOLinkMaster_init silent_line 0)))) = []
   \<and> getDevice (snd (scanForDevices (IOLinkMaster_init silent_line 0))) 0
       = Some \<lparr>m_deviceId = 1, m_vendorId = 0x12345678, m_productId = 0x87654321\<rparr>"
  by (simp add: scanForDevices_def IOLinkMaster_init_def getDevice_def dummyDevice_def
      silent_line_def)

text \<open>Claim C4, evaluated. After that scan, activating port 0 on the silent line sends ten
  zero bytes and returns NONE at once, and getDevice on port 0 still returns the device.
  Without the scan the table is empty, and activating port 0 returns INVALID_PARAMETER without
  sending anything.\<close>

theorem activatePort_silent_line:
  "activatePort (snd (scanForDevices (IOLinkMaster_init silent_line 0))) 0 COM2
     = (NONE, \<lparr>m_serialPort = \<lparr>sent = replicate 10 0x00, rx_buffer = [], wire = []\<rparr>,
               m_devices = [dummyDevice], millis = 0\<rparr>)
   \<and> getDevice (snd (activatePort (snd (scanForDevices (IOLinkMaster_init silent_line 0))) 0 COM2)) 0
       = Some dummyDevice
   \<and> activatePort (IOLinkMaster_init silent_line 0) 0 COM2
       = (INVALID_PARAMETER, IOLinkMaster_init silent_line 0)"
  by (simp add: activatePort_def scanForDevices_def IOLinkMaster_init_def getDevice_def
      wakeup_loop_sent silent_line_def)

section \<open>Payloads that do not fit the length byte\<close>

text \<open>Claim C10. For a payload of more than 255 bytes buildIOLinkMessage neither rejects nor
  shortens it: the frame is the start byte, the type byte, a length byte whose value is the
  payload length modulo 256, all the payload bytes, and the XOR checksum computed with that
  length byte. Parsing this frame never gives back the original type and payload.\<close>

theorem long_payload_no_roundtrip:
  "255 < length payload \<Longrightarrow>
     buildIOLinkMessage t payload
       = [START_BYTE, type_value t, of_nat (length payload)] @ payload
         @ [xor_bytes (START_BYTE XOR type_value t XOR of_nat (length payload)) payload]
     \<and> unat (buildIOLinkMessage t payload ! 2) = length payload mod 256
     \<and> parseIOLinkMessage (buildIOLinkMessage t payload) ty0 p0 \<noteq> (NONE, Some t, payload)"
proof -
  assume long: "255 < length payload"
  let ?raw = "buildIOLinkMessage t payload"
  have "parseIOLinkMessage ?raw ty0 p0 \<noteq> (NONE, Some t, payload)"
  proof
    assume eq: "parseIOLinkMessage ?raw ty0 p0 = (NONE, Some t, payload)"
    then have "frame_ok ?raw"
      using parse_NONE_iff [of ?raw ty0 p0] by simp
    from parse_frame_ok [OF this, of ty0 p0] eq
    have "payload = take (unat (?raw ! 2)) (drop 3 ?raw)"
      by simp
    then have "length payload \<le> unat (?raw ! 2)"
      by (metis length_take min.cobounded2)
    moreover have "unat (?raw ! 2) < 256"
      using unsigned_less [of "?raw ! 2"] by simp
    ultimately show False
      using long by simp
  qed
  then show ?thesis
    by (simp add: buildIOLinkMessage_bytes unat_of_nat)
qed

theorem long_payload_no_roundtrip_witness:
  "255 < length (replicate 256 (0x00 :: u8))
   \<and> unat (buildIOLinkMessage EVENT (replicate 256 0x00) ! 2) = 0
   \<and> parseIOLinkMessage (buildIOLinkMessage EVENT (replicate 256 0x00)) None []
       \<noteq> (NONE, Some EVENT, replicate 256 0x00)"
proof -
  have long: "255 < length (replicate 256 (0x00 :: u8))"
    by simp
  from long_payload_no_roundtrip [OF long, of EVENT None "[]"]
  have len_byte: "unat (buildIOLinkMessage EVENT (replicate 256 0x00) ! 2)
        = length (replicate 256 (0x00 :: u8)) mod 256"
    and differs: "parseIOLinkMessage (buildIOLinkMessage EVENT (replicate 256 0x00)) None []
       \<noteq> (NONE, Some EVENT, replicate 256 0x00)"
    by blast+
  from len_byte have "unat (buildIOLinkMessage EVENT (replicate 256 0x00) ! 2) = 0"
    by simp
  with long differs show ?thesis
    by blast
qed

section \<open>Receiving with a timeout\<close>

text \<open>Claim C6. For every port index in range and every timeout \<open>T\<close>: if no structurally
  valid frame of the expected type ever arrives at the port, receiveMessage returns TIMEOUT,
  and when it returns at least \<open>T\<close> milliseconds have passed since the call began.\<close>

theorem receive_timeout_floor:
  "unat port < length (m_devices m) \<Longrightarrow> no_frame_arrives (m_serialPort m) type \<Longrightarrow>
     fst (receiveMessage m port type data timeout) = TIMEOUT
     \<and> millis m + unat timeout \<le> millis (snd (snd (receiveMessage m port type data timeout)))"
proof -
  assume port: "unat port < length (m_devices m)"
    and none: "no_frame_arrives (m_serialPort m) type"
  let ?run = "receive_loop m (Milliseconds m) type data timeout []"
  have run: "receiveMessage m port type data timeout = ?run"
    using port by (simp add: receiveMessage_def)
  have n: "unat timeout = unat timeout - unat (Milliseconds m - Milliseconds m)"
    by simp
  from none have "\<not> frame_at ([] @ incoming (m_serialPort m)) type 0"
    by (auto simp: no_frame_arrives_def)
  from receive_loop_no_frame [OF n this] have timeout: "fst ?run = TIMEOUT" .
  then have "?run = (TIMEOUT, fst (snd ?run), snd (snd ?run))"
    by (metis prod.collapse)
  from receive_loop_timeout_elapsed [OF n this] timeout show ?thesis
    by (simp add: run)
qed

theorem receive_timeout_floor_witness:
  "unat (0 :: u8) < length (m_devices \<lparr>m_serialPort = slow_line, m_devices = [dummyDevice], millis = 7\<rparr>)
   \<and> no_frame_arrives
        (m_serialPort \<lparr>m_serialPort = slow_line, m_devices = [dummyDevice], millis = 7\<rparr>) PARAMETER
   \<and> fst (receiveMessage \<lparr>m_serialPort = slow_line, m_devices = [dummyDevice], millis = 7\<rparr>
         0 PARAMETER [] 3) = TIMEOUT
   \<and> 7 + unat (3 :: u32)
       \<le> millis (snd (snd (receiveMessage
             \<lparr>m_serialPort = slow_line, m_devices = [dummyDevice], millis = 7\<rparr> 0 PARAMETER [] 3)))"
proof -
  let ?m = "\<lparr>m_serialPort = slow_line, m_devices = [dummyDevice], millis = 7\<rparr>"
  have port: "unat (0 :: u8) < length (m_devices ?m)"
    by simp
  have none: "no_frame_arrives (m_serialPort ?m) PARAMETER"
    by (simp add: slow_line_def no_frame_arrives_def incoming_def frame_at_iff
        frame_ok_def value_type_def START_BYTE_def upt_conv_Cons)
  from receive_timeout_floor [OF port none, of "[]" 3]
  have "fst (receiveMessage ?m 0 PARAMETER [] 3) = TIMEOUT"
    and "7 + unat (3 :: u32) \<le> millis (snd (snd (receiveMessage ?m 0 PARAMETER [] 3)))"
    by simp_all
  with port none show ?thesis
    by blast
qed

text \<open>Claim C7, evaluated. Port 0 is in range, a parameter frame is expected, the timeout
  is 1000 ms. On the line that first holds a complete process-data frame, a complete valid
  parameter frame arrives one millisecond later (it starts at offset 5 of the incoming bytes),
  and receiveMessage returns TIMEOUT. The same happens when the first frame is a parameter
  frame with a wrong checksum. When the same parameter frame arrives alone, receiveMessage
  returns NONE with its payload after one millisecond.\<close>

theorem receive_after_mismatch:
  "frame_at (incoming other_type_first) PARAMETER 5
   \<and> fst (receiveMessage \<lparr>m_serialPort = other_type_first, m_devices = [dummyDevice], millis = 0\<rparr>
        0 PARAMETER [] 1000) = TIMEOUT
   \<and> frame_at (incoming bad_checksum_first) PARAMETER 5
   \<and> fst (receiveMessage \<lparr>m_serialPort = bad_checksum_first, m_devices = [dummyDevice], millis = 0\<rparr>
        0 PARAMETER [] 1000) = TIMEOUT
   \<and> receiveMessage
        \<lparr>m_serialPort = \<lparr>sent = [], rx_buffer = [], wire = [buildIOLinkMessage PARAMETER [0x42]]\<rparr>,
         m_devices = [dummyDevice], millis = 0\<rparr> 0 PARAMETER [] 1000
       = (NONE, [0x42],
          \<lparr>m_serialPort = \<lparr>sent = [], rx_buffer = [], wire = []\<rparr>,
           m_devices = [dummyDevice], millis = 1\<rparr>)"
proof -
  have stream1: "incoming other_type_first
      = [0xA5, 0x01, 0x01, 0x11, 0xB4, 0xA5, 0x02, 0x01, 0x42, 0xE4]"
    by (simp add: incoming_def other_type_first_def buildIOLinkMessage_bytes START_BYTE_def)
  have stream2: "incoming bad_checksum_first
      = [0xA5, 0x02, 0x01, 0x42, 0xE5, 0xA5, 0x02, 0x01, 0x42, 0xE4]"
    by (simp add: incoming_def bad_checksum_first_def buildIOLinkMessage_bytes START_BYTE_def)
  have arrives1: "frame_at (incoming other_type_first) PARAMETER 5"
    unfolding stream1 by (simp add: frame_at_iff frame_ok_def value_type_def START_BYTE_def)
  have arrives2: "frame_at (incoming bad_checksum_first) PARAMETER 5"
    unfolding stream2 by (simp add: frame_at_iff frame_ok_def value_type_def START_BYTE_def)
  have head1: "\<not> frame_at ([] @ incoming other_type_first) PARAMETER 0"
    unfolding stream1 by (simp add: frame_at_iff frame_ok_def value_type_def START_BYTE_def)
  have head2: "\<not> frame_at ([] @ incoming bad_checksum_first) PARAMETER 0"
    unfolding stream2 by (simp add: frame_at_iff frame_ok_def value_type_def START_BYTE_def)
  have timeout1: "fst (receiveMessage
      \<lparr>m_serialPort = other_type_first, m_devices = [dummyDevice], millis = 0\<rparr>
      0 PARAMETER [] 1000) = TIMEOUT"
  proof -
    let ?m = "\<lparr>m_serialPort = other_type_first, m_devices = [dummyDevice], millis = 0\<rparr>"
    have "fst (receive_loop ?m (Milliseconds ?m) PARAMETER [] 1000 []) = TIMEOUT"
    proof (rule receive_loop_no_frame [where n = 1000])
      show "1000 = unat (1000 :: u32) - unat (Milliseconds ?m - Milliseconds ?m)"
        by simp
      show "\<not> frame_at ([] @ incoming (m_serialPort ?m)) PARAMETER 0"
        using head1 by simp
    qed
    then show ?thesis
      by (simp add: receiveMessage_def)
  qed
  have timeout2: "fst (receiveMessage
      \<lparr>m_serialPort = bad_checksum_first, m_devices = [dummyDevice], millis = 0\<rparr>
      0 PARAMETER [] 1000) = TIMEOUT"
  proof -
    let ?m = "\<lparr>m_serialPort = bad_checksum_first, m_devices = [dummyDevice], millis = 0\<rparr>"
    have "fst (receive_loop ?m (Milliseconds ?m) PARAMETER [] 1000 []) = TIMEOUT"
    proof (rule receive_loop_no_frame [where n = 1000])
      show "1000 = unat (1000 :: u32) - unat (Milliseconds ?m - Milliseconds ?m)"
        by simp
      show "\<not> frame_at ([] @ incoming (m_serialPort ?m)) PARAMETER 0"
        using head2 by simp
    qed
    then show ?thesis
      by (simp add: receiveMessage_def)
  qed
  have alone: "receiveMessage
        \<lparr>m_serialPort = \<lparr>sent = [], rx_buffer = [], wire = [buildIOLinkMessage PARAMETER [0x42]]\<rparr>,
         m_devices = [dummyDevice], millis = 0\<rparr> 0 PARAMETER [] 1000
       = (NONE, [0x42],
          \<lparr>m_serialPort = \<lparr>sent = [], rx_buffer = [], wire = []\<rparr>,
           m_devices = [dummyDevice], millis = 1\<rparr>)"
    by (simp add: receiveMessage_def receive_loop_unfold delay_def tick_def line_tick_def
        Milliseconds_def buildIOLinkMessage_bytes frame_ok_def value_type_def START_BYTE_def
        Let_def)
  from arrives1 timeout1 arrives2 timeout2 alone show ?thesis
    by blast
qed

end
